theory Spec2Isabelle
  imports Main "HOL-Library.Word" "HOL-Library.Multiset"
begin

section \<open>Data model\<close>

text \<open>
  The development embeds \<^verbatim>\<open>download_disc_images.py\<close>. A Python \<^verbatim>\<open>str\<close> is a
  \<^typ>\<open>string\<close> whose characters are read as the code points 0 to 255, a Python
  \<^verbatim>\<open>bytes\<close> value is a list of 8-bit words, and \<^verbatim>\<open>None\<close> is the \<open>None\<close> of an
  option type.
\<close>

type_synonym bytes = "8 word list"

subsection \<open>File names\<close>

text \<open>
  \<^verbatim>\<open>sanitize_filename\<close> applies two substitutions in sequence. The first pattern is the
  character class \<^verbatim>\<open>[<>:"/\\|?*]\<close>; the second is \<^verbatim>\<open>\s+\<close>, which for a \<^verbatim>\<open>str\<close>
  pattern matches the Unicode white space characters: below 256 these are the code points
  9 to 13, 28 to 32, 133 and 160.
\<close>

definition reserved_chars :: "char list" where
  "reserved_chars =
     [CHR ''<'', CHR ''>'', CHR '':'', CHR 0x22, CHR ''/'', CHR 0x5C, CHR ''|'', CHR ''?'', CHR ''*'']"

definition is_reserved :: "char \<Rightarrow> bool" where
  "is_reserved c = (c \<in> set reserved_chars)"

definition is_space :: "char \<Rightarrow> bool" where
  "is_space c = (of_char c \<in> set [9, 10, 11, 12, 13, 28, 29, 30, 31, 32, 133, 160 :: nat])"

text \<open>\<^verbatim>\<open>re.sub(r'[<>:"/\\|?*]', '_', name)\<close>: every match is one character.\<close>

definition sub_reserved :: "string \<Rightarrow> string" where
  "sub_reserved name = map (\<lambda>c. if is_reserved c then CHR ''_'' else c) name"

text \<open>
  \<^verbatim>\<open>re.sub(r'\s+', '_', sanitized)\<close>: matches are found left to right, each one greedy,
  so a match starts at a white space character and takes all the white space after it.
\<close>

function sub_space_runs :: "string \<Rightarrow> string" where
  "sub_space_runs [] = []"
| "sub_space_runs (c # cs) =
     (if is_space c then CHR ''_'' # sub_space_runs (dropWhile is_space cs)
      else c # sub_space_runs cs)"
  by pat_completeness auto
termination
  by (relation "measure length") (auto simp: length_dropWhile_le less_Suc_eq_le)

definition sanitize_filename :: "string \<Rightarrow> string" where
  "sanitize_filename name = sub_space_runs (sub_reserved name)"


subsection \<open>The catalog\<close>

text \<open>
  A value stored in an SQLite column. \<^verbatim>\<open>img\<close> is written as a BLOB by
  \<^verbatim>\<open>update_db_image\<close> and compared with the text \<^verbatim>\<open>''\<close> by the selector, so the
  storage classes NULL, TEXT and BLOB are kept apart.
\<close>

datatype sqlval = SqlNull | SqlText string | SqlBlob bytes

text \<open>
  Modelled from the spec: the schema of table \<^verbatim>\<open>disc_data\<close>, whose \<^verbatim>\<open>CREATE TABLE\<close>
  statement is not in the sources. Section 6 of the specification gives the columns:
  \<^verbatim>\<open>id\<close> (unique key), \<^verbatim>\<open>manufacturer\<close> and \<^verbatim>\<open>model\<close> (text), the source reference
  \<^verbatim>\<open>weblink\<close> (text, nullable) and the asset \<^verbatim>\<open>img\<close> (binary, nullable). SQLite lets
  any column without \<^verbatim>\<open>NOT NULL\<close> hold NULL, so the three text columns are optional
  strings. \<open>col_rest\<close> holds every other column of the row, by name.
\<close>

record disc_row =
  col_id :: int
  col_model :: "string option"
  col_manufacturer :: "string option"
  col_weblink :: "string option"
  col_img :: sqlval
  col_rest :: "(string \<times> sqlval) list"

type_synonym table = "disc_row list"

text \<open>
  SQL conditions are three-valued: \<open>None\<close> is the unknown truth value that a comparison
  with NULL yields. A \<^verbatim>\<open>WHERE\<close> clause keeps the rows whose condition is true.
\<close>

type_synonym sqlbool = "bool option"

definition text_val :: "string option \<Rightarrow> sqlval" where
  "text_val t = (case t of None \<Rightarrow> SqlNull | Some s \<Rightarrow> SqlText s)"

definition sql_is_null :: "sqlval \<Rightarrow> sqlbool" where
  "sql_is_null v = Some (v = SqlNull)"

definition sql_is_not_null :: "sqlval \<Rightarrow> sqlbool" where
  "sql_is_not_null v = Some (v \<noteq> SqlNull)"

text \<open>
  Equality of two values when no affinity conversion applies (a column compared with a
  text literal): NULL on either side gives unknown, values of different storage classes
  are different.
\<close>

definition sql_eq :: "sqlval \<Rightarrow> sqlval \<Rightarrow> sqlbool" where
  "sql_eq a b = (if a = SqlNull \<or> b = SqlNull then None else Some (a = b))"

definition sql_ne :: "sqlval \<Rightarrow> sqlval \<Rightarrow> sqlbool" where
  "sql_ne a b = map_option Not (sql_eq a b)"

fun sql_and :: "sqlbool \<Rightarrow> sqlbool \<Rightarrow> sqlbool" where
  "sql_and (Some False) _ = Some False"
| "sql_and _ (Some False) = Some False"
| "sql_and (Some True) (Some True) = Some True"
| "sql_and _ _ = None"

fun sql_or :: "sqlbool \<Rightarrow> sqlbool \<Rightarrow> sqlbool" where
  "sql_or (Some True) _ = Some True"
| "sql_or _ (Some True) = Some True"
| "sql_or (Some False) (Some False) = Some False"
| "sql_or _ _ = None"

text \<open>
  \<^verbatim>\<open>WHERE weblink IS NOT NULL AND weblink != '' AND (img IS NULL OR img = '')\<close>
\<close>

definition where_clause :: "disc_row \<Rightarrow> sqlbool" where
  "where_clause r =
     sql_and
       (sql_and (sql_is_not_null (text_val (col_weblink r)))
                (sql_ne (text_val (col_weblink r)) (SqlText [])))
       (sql_or (sql_is_null (col_img r)) (sql_eq (col_img r) (SqlText [])))"

text \<open>The dictionary built from a result row of \<^verbatim>\<open>SELECT id, model, manufacturer, weblink\<close>.\<close>

record disc =
  d_id :: int
  d_model :: "string option"
  d_manufacturer :: "string option"
  d_weblink :: "string option"

definition select_columns :: "disc_row \<Rightarrow> disc" where
  "select_columns r =
     \<lparr>d_id = col_id r, d_model = col_model r, d_manufacturer = col_manufacturer r,
      d_weblink = col_weblink r\<rparr>"

text \<open>
  \<^verbatim>\<open>get_discs_to_process\<close>: the rows are fetched in table order with \<^verbatim>\<open>fetchall\<close>, so
  the result is a snapshot. Its \<^verbatim>\<open>logger.info\<close> line is not part of the model.
\<close>

definition get_discs_to_process :: "table \<Rightarrow> disc list" where
  "get_discs_to_process tbl =
     map select_columns (filter (\<lambda>r. where_clause r = Some True) tbl)"

text \<open>\<^verbatim>\<open>UPDATE disc_data SET img = ? WHERE id = ?\<close> with a \<^verbatim>\<open>bytes\<close> parameter.\<close>

definition update_db_image :: "table \<Rightarrow> int \<Rightarrow> bytes \<Rightarrow> table" where
  "update_db_image tbl disc_id img_data =
     map (\<lambda>r. if col_id r = disc_id then r\<lparr>col_img := SqlBlob img_data\<rparr> else r) tbl"

text \<open>The backup directory \<^verbatim>\<open>./images\<close>: file name to contents.\<close>

type_synonym store = "string \<rightharpoonup> bytes"

definition save_to_file :: "store \<Rightarrow> string \<Rightarrow> bytes \<Rightarrow> store" where
  "save_to_file fs filename data = fs(filename \<mapsto> data)"


section \<open>The pipeline\<close>

subsection \<open>Exceptions, log records and the outside world\<close>

datatype exn = TypeError | ValueError | RequestException | ImageError | OSError | DatabaseError

text \<open>
  One constructor for each logging call of the per-task pipeline and of the dispatch loop,
  with the values its message is formatted from.
\<close>

datatype log_record =
    InfoProcessing string string int
  | WarningNoImageUrl string string
  | InfoSuccess string string nat
  | ErrorExtract "string option" exn
  | ErrorDownload string exn
  | ErrorProcessing int exn
  | InfoNoDiscs
  | InfoCompleted nat nat

text \<open>What \<^verbatim>\<open>select_one("a.img-holder img.img-fluid")\<close> and \<^verbatim>\<open>.get("src")\<close> find.\<close>

datatype src_lookup = NoElement | NoSrc | Src string

text \<open>The two components of \<^verbatim>\<open>urlparse(weblink)\<close> that are read.\<close>

record url_parts =
  scheme :: string
  netloc :: string

text \<open>A decoded image: its PIL mode and its pixel data.\<close>

record image =
  mode :: string
  pixels :: bytes

text \<open>
  The libraries and the network are parameters of the model. Each call either raises
  (\<open>Inl\<close>) or returns (\<open>Inr\<close>):
  \<^item> \<open>http_get\<close> is \<^verbatim>\<open>requests.get\<close> followed by \<^verbatim>\<open>raise_for_status\<close> and
    \<^verbatim>\<open>response.content\<close>, applied to whatever the caller holds as URL;
  \<^item> \<open>select_src\<close> is the parse of the page and the selector;
  \<^item> \<open>urlparse\<close> is \<^verbatim>\<open>urllib.parse.urlparse\<close>;
  \<^item> \<open>image_open\<close>, \<open>convert\<close> and \<open>save\<close> are \<^verbatim>\<open>Image.open\<close>, \<^verbatim>\<open>img.convert(mode)\<close>
    and \<^verbatim>\<open>img.save(buffer, format=..., optimize=...)\<close> with the buffer's contents.
\<close>

record env =
  http_get :: "string option \<Rightarrow> exn + bytes"
  select_src :: "bytes \<Rightarrow> exn + src_lookup"
  urlparse :: "string option \<Rightarrow> exn + url_parts"
  image_open :: "bytes \<Rightarrow> exn + image"
  convert :: "image \<Rightarrow> string \<Rightarrow> exn + image"
  save :: "image \<Rightarrow> string \<Rightarrow> bool \<Rightarrow> exn + bytes"

definition startswith :: "string \<Rightarrow> string \<Rightarrow> bool" where
  "startswith s p = (take (length p) s = p)"

subsection \<open>Reference extractor\<close>

text \<open>The body of the \<^verbatim>\<open>try\<close> block of \<^verbatim>\<open>extract_image_url\<close>.\<close>

definition extract_body :: "env \<Rightarrow> string option \<Rightarrow> exn + string option" where
  "extract_body e weblink =
     (case http_get e weblink of
        Inl x \<Rightarrow> Inl x
      | Inr content \<Rightarrow>
          (case select_src e content of
             Inl x \<Rightarrow> Inl x
           | Inr NoElement \<Rightarrow> Inr None
           | Inr NoSrc \<Rightarrow> Inr None
           | Inr (Src img_url) \<Rightarrow>
               if img_url = [] then Inr None
               else if startswith img_url ''//'' then Inr (Some (''https:'' @ img_url))
               else if startswith img_url ''/'' then
                 (case urlparse e weblink of
                    Inl x \<Rightarrow> Inl x
                  | Inr parsed \<Rightarrow>
                      Inr (Some (scheme parsed @ ''://'' @ netloc parsed @ img_url)))
               else Inr (Some img_url)))"

text \<open>
  \<^verbatim>\<open>extract_image_url\<close>: the \<^verbatim>\<open>except Exception\<close> handler logs the error and returns
  \<^verbatim>\<open>None\<close>. The result is the returned value and the records logged by the call.
\<close>

definition extract_image_url :: "env \<Rightarrow> string option \<Rightarrow> string option \<times> log_record list" where
  "extract_image_url e weblink =
     (case extract_body e weblink of
        Inl x \<Rightarrow> (None, [ErrorExtract weblink x])
      | Inr r \<Rightarrow> (r, []))"

subsection \<open>Asset fetcher and normalizer\<close>

text \<open>The mode conversion between \<^verbatim>\<open>Image.open\<close> and \<^verbatim>\<open>img.save\<close>.\<close>

definition normalize_mode :: "env \<Rightarrow> image \<Rightarrow> exn + image" where
  "normalize_mode e img =
     (if mode img \<in> set [''RGBA'', ''LA'', ''P''] then
        (if mode img = ''P'' then convert e img ''RGBA'' else Inr img)
      else if mode img \<noteq> ''RGB'' then convert e img ''RGB''
      else Inr img)"

definition download_body :: "env \<Rightarrow> string \<Rightarrow> exn + bytes" where
  "download_body e img_url =
     (case http_get e (Some img_url) of
        Inl x \<Rightarrow> Inl x
      | Inr content \<Rightarrow>
          (case image_open e content of
             Inl x \<Rightarrow> Inl x
           | Inr img \<Rightarrow>
               (case normalize_mode e img of
                  Inl x \<Rightarrow> Inl x
                | Inr img' \<Rightarrow> save e img' ''PNG'' True)))"

definition download_and_convert_image :: "env \<Rightarrow> string \<Rightarrow> bytes option \<times> log_record list" where
  "download_and_convert_image e img_url =
     (case download_body e img_url of
        Inl x \<Rightarrow> (None, [ErrorDownload img_url x])
      | Inr png \<Rightarrow> (Some png, []))"

subsection \<open>One task\<close>

text \<open>
  \<^verbatim>\<open>process_disc\<close>. \<^verbatim>\<open>re.sub\<close> raises \<^verbatim>\<open>TypeError\<close> on \<^verbatim>\<open>None\<close>, so a NULL
  manufacturer or model makes the task raise before anything is logged. \<^verbatim>\<open>not img_url\<close>
  and \<^verbatim>\<open>not png_bytes\<close> hold for \<^verbatim>\<open>None\<close> and for the empty value.
\<close>

type_synonym task_result = "int \<times> bytes option \<times> string option"

definition process_disc :: "env \<Rightarrow> disc \<Rightarrow> (exn + task_result) \<times> log_record list" where
  "process_disc e d =
     (case d_manufacturer d of
        None \<Rightarrow> (Inl TypeError, [])
      | Some manufacturer \<Rightarrow>
     (case d_model d of
        None \<Rightarrow> (Inl TypeError, [])
      | Some model \<Rightarrow>
          let disc_id = d_id d;
              filename = sanitize_filename manufacturer @ ''_'' @ sanitize_filename model @ ''.png'';
              log1 = [InfoProcessing manufacturer model disc_id];
              (img_url, log2) = extract_image_url e (d_weblink d)
          in (case img_url of
                None \<Rightarrow>
                  (Inr (disc_id, None, None), log1 @ log2 @ [WarningNoImageUrl manufacturer model])
              | Some url \<Rightarrow>
                  if url = [] then
                    (Inr (disc_id, None, None), log1 @ log2 @ [WarningNoImageUrl manufacturer model])
                  else
                    let (png_bytes, log3) = download_and_convert_image e url
                    in (case png_bytes of
                          None \<Rightarrow> (Inr (disc_id, None, None), log1 @ log2 @ log3)
                        | Some png \<Rightarrow>
                            if png = [] then (Inr (disc_id, None, None), log1 @ log2 @ log3)
                            else (Inr (disc_id, Some png, Some filename),
                                  log1 @ log2 @ log3 @
                                  [InfoSuccess manufacturer model (length png)])))))"

subsection \<open>Dispatch loop and persistence\<close>

text \<open>
  The state that the loop of \<^verbatim>\<open>main\<close> changes: the catalog, the backup directory, the
  two counters and the log of the main thread.
\<close>

record run_state =
  db :: table
  files :: store
  success_count :: nat
  fail_count :: nat
  run_log :: "log_record list"

text \<open>
  One future handed out by \<^verbatim>\<open>as_completed\<close>: the disc it was submitted for, and the
  exception, if any, that \<^verbatim>\<open>update_db_image\<close> and \<^verbatim>\<open>save_to_file\<close> raise when the
  loop calls them for this task. An update that raises has not committed, so the catalog
  is as it was. A \<^verbatim>\<open>save_to_file\<close> that raises comes with what it left behind: nothing
  when \<^verbatim>\<open>open\<close> failed, the bytes that reached the file when the write failed.
\<close>

record completion =
  c_disc :: disc
  c_db_error :: "exn option"
  c_fs_error :: "(exn \<times> bytes option) option"

definition left_behind :: "store \<Rightarrow> string \<Rightarrow> bytes option \<Rightarrow> store" where
  "left_behind fs filename part =
     (case part of None \<Rightarrow> fs | Some written \<Rightarrow> fs(filename \<mapsto> written))"

definition failed :: "run_state \<Rightarrow> run_state" where
  "failed st = st\<lparr>fail_count := fail_count st + 1\<rparr>"

definition failed_with :: "run_state \<Rightarrow> disc \<Rightarrow> exn \<Rightarrow> run_state" where
  "failed_with st d x =
     st\<lparr>fail_count := fail_count st + 1, run_log := run_log st @ [ErrorProcessing (d_id d) x]\<rparr>"

text \<open>The body of the \<^verbatim>\<open>for future in as_completed(...)\<close> loop.\<close>

definition main_step :: "env \<Rightarrow> run_state \<Rightarrow> completion \<Rightarrow> run_state" where
  "main_step e st c =
     (case fst (process_disc e (c_disc c)) of
        Inl x \<Rightarrow> failed_with st (c_disc c) x
      | Inr (disc_id, png_bytes, filename) \<Rightarrow>
          (case (png_bytes, filename) of
             (Some png, Some name) \<Rightarrow>
               if png \<noteq> [] \<and> name \<noteq> [] then
                 (case c_db_error c of
                    Some x \<Rightarrow> failed_with st (c_disc c) x
                  | None \<Rightarrow>
                      let st1 = st\<lparr>db := update_db_image (db st) disc_id png\<rparr>
                      in (case c_fs_error c of
                            Some (x, part) \<Rightarrow>
                              failed_with (st1\<lparr>files := left_behind (files st1) name part\<rparr>)
                                (c_disc c) x
                          | None \<Rightarrow>
                              st1\<lparr>files := save_to_file (files st1) name png,
                                  success_count := success_count st1 + 1\<rparr>))
               else failed st
           | _ \<Rightarrow> failed st))"

text \<open>
  \<^verbatim>\<open>main\<close> after the schema guard, on a catalog that has the \<^verbatim>\<open>img\<close> column. The
  argument \<open>sched\<close> is the sequence in which \<^verbatim>\<open>as_completed\<close> yields the futures;
  \<open>start\<close> is the state in which the loop is entered.
\<close>

definition start :: "table \<Rightarrow> store \<Rightarrow> run_state" where
  "start tbl fs = \<lparr>db = tbl, files = fs, success_count = 0, fail_count = 0, run_log = []\<rparr>"

definition main :: "env \<Rightarrow> table \<Rightarrow> store \<Rightarrow> completion list \<Rightarrow> run_state" where
  "main e tbl fs sched =
     (let discs = get_discs_to_process tbl
      in if discs = [] then (start tbl fs)\<lparr>run_log := [InfoNoDiscs]\<rparr>
         else
           let st = foldl (main_step e) (start tbl fs) sched
           in st\<lparr>run_log := run_log st @ [InfoCompleted (success_count st) (fail_count st)]\<rparr>)"


section \<open>Notions of the specification\<close>

text \<open>
  The sanitization as the specification words it, in one pass: each reserved character
  and each maximal run of white space becomes one underscore.
\<close>

function sanitize_spec :: "string \<Rightarrow> string" where
  "sanitize_spec [] = []"
| "sanitize_spec (c # cs) =
     (if is_reserved c then CHR ''_'' # sanitize_spec cs
      else if is_space c then CHR ''_'' # sanitize_spec (dropWhile is_space cs)
      else c # sanitize_spec cs)"
  by pat_completeness auto
termination
  by (relation "measure length") (auto simp: length_dropWhile_le less_Suc_eq_le)

text \<open>
  Eligibility as the specification words it: the source reference is present and not
  empty, and the asset slot, a binary column, is null or empty. An empty slot holds no
  byte: it is the empty text or the zero-length BLOB.
\<close>

definition has_weblink :: "disc_row \<Rightarrow> bool" where
  "has_weblink r = (case col_weblink r of None \<Rightarrow> False | Some w \<Rightarrow> w \<noteq> [])"

definition img_empty :: "sqlval \<Rightarrow> bool" where
  "img_empty v = (v = SqlNull \<or> v = SqlText [] \<or> v = SqlBlob [])"

definition eligible :: "disc_row \<Rightarrow> bool" where
  "eligible r = (has_weblink r \<and> img_empty (col_img r))"

text \<open>Every row with identity \<open>i\<close> has an asset: its \<^verbatim>\<open>img\<close> is neither NULL nor empty.\<close>

definition populated :: "int \<Rightarrow> table \<Rightarrow> bool" where
  "populated i tbl = list_all (\<lambda>r. col_id r = i \<longrightarrow> \<not> img_empty (col_img r)) tbl"

text \<open>The Success outcome of a task: the triple carries bytes and a file name.\<close>

definition task_succeeded :: "env \<Rightarrow> disc \<Rightarrow> bool" where
  "task_succeeded e d =
     (case fst (process_disc e d) of
        Inr (_, Some _, Some _) \<Rightarrow> True
      | _ \<Rightarrow> False)"

text \<open>A completed task for which the catalog write and the backup write both went through.\<close>

definition writes_performed :: "env \<Rightarrow> completion \<Rightarrow> bool" where
  "writes_performed e c =
     (task_succeeded e (c_disc c) \<and> c_db_error c = None \<and> c_fs_error c = None)"

text \<open>
  Reference resolution as the specification words it, from the parsed origin: the scheme
  of the origin page before a reference that begins with \<^verbatim>\<open>//\<close>, its scheme and host
  before one that begins with a single \<^verbatim>\<open>/\<close>, and any other reference unchanged.
\<close>

definition resolve_spec :: "url_parts \<Rightarrow> string \<Rightarrow> string" where
  "resolve_spec origin ref =
     (if startswith ref ''//'' then scheme origin @ '':'' @ ref
      else if startswith ref ''/'' then scheme origin @ ''://'' @ netloc origin @ ref
      else ref)"

text \<open>
  The mode in which the specification has an image re-encoded: the truecolor mode with
  transparency for a source with an alpha channel (RGBA, LA) or a palette (P), plain
  truecolor for anything else.
\<close>

definition target_mode_spec :: "string \<Rightarrow> string" where
  "target_mode_spec m = (if m \<in> set [''RGBA'', ''LA'', ''P''] then ''RGBA'' else ''RGB'')"

text \<open>The later history of a catalog: loop iterations of any runs, each in its own world.\<close>

definition later_steps :: "run_state \<Rightarrow> (env \<times> completion) list \<Rightarrow> run_state" where
  "later_steps st steps = foldl (\<lambda>s (e, c). main_step e s c) st steps"

section \<open>A concrete world for the examples\<close>

text \<open>
  The scheme and the network location that \<^verbatim>\<open>urllib.parse.urlsplit\<close> computes for a
  \<^verbatim>\<open>str\<close> URL: leading control characters and spaces are stripped, tabs and line breaks
  are removed, a prefix of scheme characters that starts with a letter and ends before the
  first colon is the scheme (in lower case), and after \<^verbatim>\<open>//\<close> the network location runs up
  to the first of \<^verbatim>\<open>/ ? #\<close>. The checks that urlsplit makes on bracketed hosts and on
  non-ASCII network locations are left to the one rule that an unmatched bracket raises
  \<^verbatim>\<open>ValueError\<close>; the examples use neither.
\<close>

definition is_ascii_alpha :: "char \<Rightarrow> bool" where
  "is_ascii_alpha c =
     (let n = (of_char c :: nat) in (65 \<le> n \<and> n \<le> 90) \<or> (97 \<le> n \<and> n \<le> 122))"

definition is_scheme_char :: "char \<Rightarrow> bool" where
  "is_scheme_char c =
     (let n = (of_char c :: nat)
      in is_ascii_alpha c \<or> (48 \<le> n \<and> n \<le> 57) \<or> c \<in> set ''+-.'')"

definition ascii_lower :: "char \<Rightarrow> char" where
  "ascii_lower c =
     (let n = (of_char c :: nat) in if 65 \<le> n \<and> n \<le> 90 then char_of (n + 32) else c)"

definition py_urlsplit :: "string \<Rightarrow> exn + url_parts" where
  "py_urlsplit url0 =
     (let url1 = dropWhile (\<lambda>c. (of_char c :: nat) \<le> 32) url0;
          url = filter (\<lambda>c. c \<notin> set [CHR 0x09, CHR 0x0A, CHR 0x0D]) url1;
          pre = takeWhile (\<lambda>c. c \<noteq> CHR '':'') url;
          found = (CHR '':'' \<in> set url \<and> pre \<noteq> [] \<and> is_ascii_alpha (hd pre)
                   \<and> list_all is_scheme_char pre);
          sch = (if found then map ascii_lower pre else []);
          rest = (if found then drop (length pre + 1) url else url)
      in if take 2 rest = ''//'' then
           let loc = takeWhile (\<lambda>c. c \<notin> set ''/?#'') (drop 2 rest)
           in if (CHR ''['' \<in> set loc) \<noteq> (CHR '']'' \<in> set loc) then Inl ValueError
              else Inr \<lparr>scheme = sch, netloc = loc\<rparr>
         else Inr \<lparr>scheme = sch, netloc = []\<rparr>)"

text \<open>
  A small web. Each page is served as one byte that identifies it; the image of a page
  lives where its \<^verbatim>\<open>src\<close> points. Pages 1 and 2 carry a reference that begins with
  \<^verbatim>\<open>//\<close>, page 3 lacks the markup, the image of page 4 is missing on the server and
  that of page 5 is corrupt, page 6 carries a reference that begins with \<^verbatim>\<open>/\<close> and
  page 7 an absolute one. Images decode to the mode named by their first byte; \<open>convert\<close> gives the
  image the requested mode and \<open>save\<close> returns the pixel data. \<^verbatim>\<open>urlparse(None)\<close>
  returns empty \<^verbatim>\<open>bytes\<close> components, which an f-string prints as \<^verbatim>\<open>b''\<close>.
\<close>

definition web_pages :: "(string \<times> bytes) list" where
  "web_pages =
     [(''https://example.com/path/page'', [1]),
      (''http://example.com/path/page'', [2]),
      (''https://example.com/plain'', [3]),
      (''https://example.com/gone'', [4]),
      (''https://example.com/corrupt'', [5]),
      (''https://example.com/path/other'', [6]),
      (''https://example.com/path/abs'', [7]),
      (''https://cdn.example.com/x.webp'', [10, 7]),
      (''https://example.com/img/x.webp'', [11, 8]),
      (''https://other.com/x.webp'', [12, 9]),
      (''https://example.com/img/bad.webp'', [0])]"

definition web_markup :: "(bytes \<times> src_lookup) list" where
  "web_markup =
     [([1], Src ''//cdn.example.com/x.webp''),
      ([2], Src ''//cdn.example.com/x.webp''),
      ([3], NoElement),
      ([4], Src ''/img/missing.webp''),
      ([5], Src ''/img/bad.webp''),
      ([6], Src ''/img/x.webp''),
      ([7], Src ''https://other.com/x.webp'')]"

definition web_mode :: "bytes \<Rightarrow> string" where
  "web_mode content =
     (if take 1 content = [10] then ''LA'' else if take 1 content = [11] then ''P'' else ''CMYK'')"

definition web :: env where
  "web =
     \<lparr>http_get = (\<lambda>u. case u of
                       None \<Rightarrow> Inl RequestException
                     | Some url \<Rightarrow>
                         (case map_of web_pages url of
                            None \<Rightarrow> Inl RequestException
                          | Some content \<Rightarrow> Inr content)),
      select_src = (\<lambda>content. case map_of web_markup content of
                       None \<Rightarrow> Inr NoElement
                     | Some found \<Rightarrow> Inr found),
      urlparse = (\<lambda>u. case u of
                       None \<Rightarrow> Inr \<lparr>scheme = [CHR ''b'', CHR 0x27, CHR 0x27],
                                    netloc = [CHR ''b'', CHR 0x27, CHR 0x27]\<rparr>
                     | Some url \<Rightarrow> py_urlsplit url),
      image_open = (\<lambda>content. if take 1 content = [0] then Inl ImageError
                     else Inr \<lparr>mode = web_mode content, pixels = content\<rparr>),
      convert = (\<lambda>img m. Inr (img\<lparr>mode := m\<rparr>)),
      save = (\<lambda>img fmt opt. Inr (pixels img))\<rparr>"

text \<open>A world without network: every request raises.\<close>

definition offline :: env where
  "offline = web\<lparr>http_get := (\<lambda>u. Inl RequestException)\<rparr>"

text \<open>The catalog of the examples: five candidates and one record that has its image.\<close>

definition row :: "int \<Rightarrow> string \<Rightarrow> string \<Rightarrow> string option \<Rightarrow> sqlval \<Rightarrow> disc_row" where
  "row i m md w v =
     \<lparr>col_id = i, col_model = Some md, col_manufacturer = Some m, col_weblink = w,
      col_img = v, col_rest = [(''class'', SqlText ''Driver'')]\<rparr>"

text \<open>A candidate by the words of the specification whose asset slot is a zero-length BLOB.\<close>

definition zero_blob_row :: disc_row where
  "zero_blob_row =
     row 10 ''Discraft'' ''Zone'' (Some ''https://example.com/path/page'') (SqlBlob [])"

definition catalog :: table where
  "catalog =
     [row 1 ''Innova'' ''Aviar  P&A'' (Some ''https://example.com/path/page'') SqlNull,
      row 2 ''Disc/Co'' ''Buzzz'' (Some ''https://example.com/plain'') (SqlText []),
      row 3 ''MVP'' ''Volt'' (Some ''https://example.com/gone'') SqlNull,
      row 4 ''Latitude 64'' ''River'' (Some ''https://example.com/corrupt'') SqlNull,
      row 5 ''Kastaplast'' ''Berg'' (Some ''http://example.com/path/page'') SqlNull,
      row 6 ''Prodigy'' ''D1'' (Some ''https://example.com/path/page'') (SqlBlob [7]),
      row 7 ''Axiom'' ''Envy'' None SqlNull]"

text \<open>A completion whose writes go through, and one whose backup write fails half way.\<close>

definition done_ok :: "disc \<Rightarrow> completion" where
  "done_ok d = \<lparr>c_disc = d, c_db_error = None, c_fs_error = None\<rparr>"

definition backup_failed :: "disc \<Rightarrow> completion" where
  "backup_failed d = \<lparr>c_disc = d, c_db_error = None, c_fs_error = Some (OSError, Some [10])\<rparr>"


section \<open>Properties of the file names\<close>

lemma underscore_plain: "\<not> is_space CHR ''_''" "\<not> is_reserved CHR ''_''"
  by (simp_all add: is_space_def is_reserved_def reserved_chars_def)

lemma reserved_not_space: "is_reserved c \<Longrightarrow> \<not> is_space c"
  unfolding is_space_def is_reserved_def reserved_chars_def by (elim disjE | simp)+

lemma sub_space_runs_no_space: "\<forall>c \<in> set (sub_space_runs s). \<not> is_space c"
proof (induction s rule: sub_space_runs.induct)
  case 1 show ?case by simp
next
  case (2 c cs)
  show ?case
  proof (cases "is_space c")
    case True with 2 show ?thesis by (simp add: underscore_plain)
  next
    case False with 2 show ?thesis by simp
  qed
qed

lemma sub_space_runs_set: "set (sub_space_runs s) \<subseteq> insert CHR ''_'' (set s)"
proof (induction s rule: sub_space_runs.induct)
  case 1 show ?case by simp
next
  case (2 c cs)
  have sub: "set (dropWhile is_space cs) \<subseteq> set cs" by (auto dest: set_dropWhileD)
  show ?case
  proof (cases "is_space c")
    case True
    with 2 have "set (sub_space_runs (dropWhile is_space cs)) \<subseteq> insert CHR ''_'' (set cs)"
      using sub by blast
    with True show ?thesis by auto
  next
    case False
    with 2 have "set (sub_space_runs cs) \<subseteq> insert CHR ''_'' (set cs)" by blast
    with False show ?thesis by auto
  qed
qed

lemma sub_space_runs_id: "\<forall>c \<in> set s. \<not> is_space c \<Longrightarrow> sub_space_runs s = s"
  by (induction s) simp_all

lemma sub_reserved_id: "\<forall>c \<in> set s. \<not> is_reserved c \<Longrightarrow> sub_reserved s = s"
  unfolding sub_reserved_def by (induction s) simp_all

lemma sub_reserved_no_reserved: "\<forall>c \<in> set (sub_reserved s). \<not> is_reserved c"
  by (auto simp: sub_reserved_def underscore_plain)

lemma sanitize_no_reserved: "\<forall>c \<in> set (sanitize_filename s). \<not> is_reserved c"
proof
  fix c assume "c \<in> set (sanitize_filename s)"
  then have "c = CHR ''_'' \<or> c \<in> set (sub_reserved s)"
    using sub_space_runs_set[of "sub_reserved s"] by (auto simp: sanitize_filename_def)
  then show "\<not> is_reserved c"
    using sub_reserved_no_reserved[of s] underscore_plain(2) by blast
qed

lemma sanitize_no_space: "\<forall>c \<in> set (sanitize_filename s). \<not> is_space c"
  by (simp add: sanitize_filename_def sub_space_runs_no_space)

lemma sub_reserved_Cons:
  "sub_reserved (c # cs) = (if is_reserved c then CHR ''_'' else c) # sub_reserved cs"
  by (simp add: sub_reserved_def)

lemma dropWhile_sub_reserved:
  "dropWhile is_space (sub_reserved cs) = sub_reserved (dropWhile is_space cs)"
proof (induction cs)
  case Nil show ?case by (simp add: sub_reserved_def)
next
  case (Cons c cs)
  show ?case
  proof (cases "is_reserved c")
    case True
    then show ?thesis by (simp add: sub_reserved_Cons underscore_plain reserved_not_space)
  next
    case False
    with Cons show ?thesis by (simp add: sub_reserved_Cons)
  qed
qed

lemma sanitize_refines: "sanitize_filename s = sanitize_spec s"
  unfolding sanitize_filename_def
proof (induction s rule: sanitize_spec.induct)
  case 1 show ?case by (simp add: sub_reserved_def)
next
  case (2 c cs)
  show ?case
  proof (cases "is_reserved c")
    case True
    with 2 show ?thesis by (simp add: sub_reserved_Cons underscore_plain)
  next
    case False
    note nr = this
    show ?thesis
    proof (cases "is_space c")
      case True
      with nr 2 show ?thesis by (simp add: sub_reserved_Cons dropWhile_sub_reserved)
    next
      case False
      with nr 2 show ?thesis by (simp add: sub_reserved_Cons)
    qed
  qed
qed

lemma png_plain: "\<forall>c \<in> set ''.png''. \<not> is_reserved c \<and> \<not> is_space c"
  by (simp add: is_space_def is_reserved_def reserved_chars_def)

lemma filename_plain:
  "\<forall>c \<in> set (sanitize_filename m @ ''_'' @ sanitize_filename md @ ''.png'').
     \<not> is_reserved c \<and> \<not> is_space c"
  using sanitize_no_reserved[of m] sanitize_no_space[of m]
    sanitize_no_reserved[of md] sanitize_no_space[of md] png_plain underscore_plain
  by auto

text \<open>
  Claim C10. \<^verbatim>\<open>sanitize_filename\<close> is idempotent: its output holds no reserved character
  and no white space, so a second application changes nothing.
\<close>

theorem sanitize_filename_idempotent:
  "(\<forall>c \<in> set (sanitize_filename s). \<not> is_reserved c \<and> \<not> is_space c)
   \<and> sanitize_filename (sanitize_filename s) = sanitize_filename s"
proof -
  have "sub_reserved (sanitize_filename s) = sanitize_filename s"
    by (rule sub_reserved_id) (rule sanitize_no_reserved)
  moreover have "sub_space_runs (sanitize_filename s) = sanitize_filename s"
    by (rule sub_space_runs_id) (rule sanitize_no_space)
  ultimately have "sanitize_filename (sanitize_filename s) = sanitize_filename s"
    by (simp add: sanitize_filename_def)
  then show ?thesis
    using sanitize_no_reserved[of s] sanitize_no_space[of s] by blast
qed


theorem sanitize_filename_idempotent_witness:
  "sanitize_filename ''Disc/Co:  a b'' = ''Disc_Co__a_b''
   \<and> CHR ''_'' \<in> set (sanitize_filename ''Disc/Co:  a b'')
   \<and> \<not> is_reserved CHR ''_'' \<and> \<not> is_space CHR ''_''
   \<and> sanitize_filename ''Disc_Co__a_b'' = ''Disc_Co__a_b''"
proof -
  have ev: "sanitize_filename ''Disc/Co:  a b'' = ''Disc_Co__a_b''"
    by (simp add: sanitize_filename_def sub_reserved_def is_reserved_def reserved_chars_def
        is_space_def)
  from sanitize_filename_idempotent[of "''Disc/Co:  a b''"] show ?thesis
    unfolding ev by simp
qed


section \<open>Properties of the selector and of the catalog update\<close>

lemma sql_and_Some: "sql_and (Some a) (Some b) = Some (a \<and> b)"
  by (cases a; cases b) simp_all

lemma sql_or_Some: "sql_or (Some a) (Some b) = Some (a \<or> b)"
  by (cases a; cases b) simp_all

lemma where_clause_true:
  "(where_clause r = Some True)
     \<longleftrightarrow> (has_weblink r \<and> (col_img r = SqlNull \<or> col_img r = SqlText []))"
proof (cases "col_weblink r")
  case None
  then show ?thesis
    by (cases "col_img r")
       (simp_all add: where_clause_def has_weblink_def text_val_def
          sql_is_not_null_def sql_is_null_def sql_ne_def sql_eq_def sql_and_Some sql_or_Some)
next
  case (Some w)
  then show ?thesis
    by (cases "col_img r"; cases "w = []")
       (simp_all add: where_clause_def has_weblink_def text_val_def
          sql_is_not_null_def sql_is_null_def sql_ne_def sql_eq_def sql_and_Some sql_or_Some)
qed

lemma where_clause_eligible:
  "(where_clause r = Some True) \<longleftrightarrow> (eligible r \<and> col_img r \<noteq> SqlBlob [])"
  by (auto simp: where_clause_true eligible_def img_empty_def)

lemma get_discs_selected:
  "get_discs_to_process tbl =
     map select_columns
       (filter (\<lambda>r. has_weblink r \<and> (col_img r = SqlNull \<or> col_img r = SqlText [])) tbl)"
  by (simp add: get_discs_to_process_def where_clause_true)

lemma populated_not_selected:
  "populated i tbl \<Longrightarrow> d \<in> set (get_discs_to_process tbl) \<Longrightarrow> d_id d \<noteq> i"
  by (auto simp: populated_def get_discs_selected list_all_iff img_empty_def select_columns_def)

lemma populated_update:
  "populated i tbl \<Longrightarrow> b \<noteq> [] \<Longrightarrow> populated i (update_db_image tbl j b)"
  by (auto simp: populated_def update_db_image_def list_all_iff img_empty_def)

lemma update_populates: "b \<noteq> [] \<Longrightarrow> populated i (update_db_image tbl i b)"
  by (induction tbl) (simp_all add: populated_def update_db_image_def img_empty_def)

section \<open>Properties of a task and of the dispatch loop\<close>

lemma process_disc_returns:
  assumes "fst (process_disc e d) = Inr (i, png, f)"
  shows "i = d_id d"
    and "png = None \<longleftrightarrow> f = None"
    and "png \<noteq> Some []"
    and "f = Some name \<Longrightarrow>
           \<exists>m md. d_manufacturer d = Some m \<and> d_model d = Some md
             \<and> name = sanitize_filename m @ ''_'' @ sanitize_filename md @ ''.png''"
  using assms unfolding process_disc_def
  by (auto simp: Let_def split: option.splits prod.splits if_splits)

lemma process_disc_raises:
  "(\<exists>x. fst (process_disc e d) = Inl x) \<longleftrightarrow> (d_manufacturer d = None \<or> d_model d = None)"
  unfolding process_disc_def
  by (simp add: Let_def split: option.split prod.split)

lemma task_succeeded_iff:
  "task_succeeded e d \<longleftrightarrow>
     (\<exists>png name. fst (process_disc e d) = Inr (d_id d, Some png, Some name)
        \<and> png \<noteq> [] \<and> name \<noteq> [])"
proof
  assume "task_succeeded e d"
  then obtain i png name where r: "fst (process_disc e d) = Inr (i, Some png, Some name)"
    by (auto simp: task_succeeded_def split: sum.splits option.splits)
  from process_disc_returns(1)[OF r] process_disc_returns(3)[OF r]
    process_disc_returns(4)[OF r refl] r
  show "\<exists>png name. fst (process_disc e d) = Inr (d_id d, Some png, Some name)
        \<and> png \<noteq> [] \<and> name \<noteq> []"
    by auto
next
  assume "\<exists>png name. fst (process_disc e d) = Inr (d_id d, Some png, Some name)
        \<and> png \<noteq> [] \<and> name \<noteq> []"
  then show "task_succeeded e d" by (auto simp: task_succeeded_def)
qed

lemma main_step_not_succeeded:
  assumes "\<not> task_succeeded e (c_disc c)"
  shows "db (main_step e st c) = db st \<and> files (main_step e st c) = files st
    \<and> success_count (main_step e st c) = success_count st
    \<and> fail_count (main_step e st c) = fail_count st + 1"
proof (cases "fst (process_disc e (c_disc c))")
  case (Inl x)
  then show ?thesis by (simp add: main_step_def failed_with_def)
next
  case (Inr t)
  obtain i png f where t: "t = (i, png, f)" by (cases t)
  from assms have "png = None \<or> f = None"
    by (cases png; cases f) (simp_all add: task_succeeded_def Inr t)
  then show ?thesis
    by (cases png; cases f) (simp_all add: main_step_def Inr t failed_def)
qed

lemma main_step_succeeded:
  assumes "fst (process_disc e (c_disc c)) = Inr (i, Some png, Some name)"
  shows "main_step e st c =
     (case c_db_error c of
        Some x \<Rightarrow> failed_with st (c_disc c) x
      | None \<Rightarrow>
          (case c_fs_error c of
             Some (x, part) \<Rightarrow>
               failed_with (st\<lparr>db := update_db_image (db st) (d_id (c_disc c)) png,
                               files := left_behind (files st) name part\<rparr>) (c_disc c) x
           | None \<Rightarrow> st\<lparr>db := update_db_image (db st) (d_id (c_disc c)) png,
                        files := save_to_file (files st) name png,
                        success_count := success_count st + 1\<rparr>))"
proof -
  from process_disc_returns(1)[OF assms] process_disc_returns(3)[OF assms]
    process_disc_returns(4)[OF assms refl]
  have "i = d_id (c_disc c)" "png \<noteq> []" "name \<noteq> []" by auto
  then show ?thesis
    unfolding main_step_def using assms
    by (simp add: Let_def split: option.splits prod.splits)
qed


lemma main_step_performed:
  assumes "writes_performed e c"
  shows "\<exists>png name. fst (process_disc e (c_disc c)) = Inr (d_id (c_disc c), Some png, Some name)
    \<and> png \<noteq> []
    \<and> db (main_step e st c) = update_db_image (db st) (d_id (c_disc c)) png
    \<and> files (main_step e st c) = save_to_file (files st) name png
    \<and> success_count (main_step e st c) = success_count st + 1
    \<and> fail_count (main_step e st c) = fail_count st"
proof -
  from assms obtain png name where
    r: "fst (process_disc e (c_disc c)) = Inr (d_id (c_disc c), Some png, Some name)"
    and ne: "png \<noteq> []"
    by (auto simp: writes_performed_def task_succeeded_iff)
  from assms have ok: "c_db_error c = None" "c_fs_error c = None"
    by (simp_all add: writes_performed_def)
  show ?thesis
    using r ne by (simp add: main_step_succeeded[OF r] ok)
qed

lemma main_step_not_performed:
  assumes "\<not> writes_performed e c"
  shows "success_count (main_step e st c) = success_count st
    \<and> fail_count (main_step e st c) = fail_count st + 1"
proof (cases "task_succeeded e (c_disc c)")
  case False
  then show ?thesis using main_step_not_succeeded[of e c st] by simp
next
  case True
  then obtain png name where
    r: "fst (process_disc e (c_disc c)) = Inr (d_id (c_disc c), Some png, Some name)"
    by (auto simp: task_succeeded_iff)
  from assms True have "c_db_error c \<noteq> None \<or> c_fs_error c \<noteq> None"
    by (simp add: writes_performed_def)
  then show ?thesis
    by (cases "c_db_error c"; cases "c_fs_error c")
       (auto simp: main_step_succeeded[OF r] failed_with_def)
qed

lemma main_step_db:
  "db (main_step e st c) = db st \<or>
   (\<exists>png. png \<noteq> [] \<and> db (main_step e st c) = update_db_image (db st) (d_id (c_disc c)) png)"
proof (cases "task_succeeded e (c_disc c)")
  case False
  then show ?thesis using main_step_not_succeeded[of e c st] by simp
next
  case True
  then obtain png name where
    r: "fst (process_disc e (c_disc c)) = Inr (d_id (c_disc c), Some png, Some name)"
    and ne: "png \<noteq> []"
    by (auto simp: task_succeeded_iff)
  from ne show ?thesis
    by (cases "c_db_error c"; cases "c_fs_error c")
       (auto simp: main_step_succeeded[OF r] failed_with_def)
qed

lemma foldl_counts:
  "success_count (foldl (main_step e) st sched)
     = success_count st + length (filter (writes_performed e) sched)
   \<and> fail_count (foldl (main_step e) st sched)
     = fail_count st + length (filter (\<lambda>c. \<not> writes_performed e c) sched)"
proof (induction sched arbitrary: st)
  case Nil
  show ?case by simp
next
  case (Cons c cs)
  show ?case
  proof (cases "writes_performed e c")
    case True
    from main_step_performed[OF True, of st] have
      "success_count (main_step e st c) = success_count st + 1"
      "fail_count (main_step e st c) = fail_count st" by auto
    with True Cons[of "main_step e st c"] show ?thesis by simp
  next
    case False
    from main_step_not_performed[OF False, of st] have
      "success_count (main_step e st c) = success_count st"
      "fail_count (main_step e st c) = fail_count st + 1" by auto
    with False Cons[of "main_step e st c"] show ?thesis by simp
  qed
qed

lemma main_counts:
  "success_count (main e tbl fs sched)
     = (if get_discs_to_process tbl = [] then 0 else length (filter (writes_performed e) sched))
   \<and> fail_count (main e tbl fs sched)
     = (if get_discs_to_process tbl = [] then 0
        else length (filter (\<lambda>c. \<not> writes_performed e c) sched))"
  using foldl_counts[of e "start tbl fs" sched]
  by (simp add: main_def Let_def start_def)

lemma populated_main_step: "populated i (db st) \<Longrightarrow> populated i (db (main_step e st c))"
  using main_step_db[of e st c] by (auto simp: populated_update)

lemma populated_later_steps:
  "populated i (db st) \<Longrightarrow> populated i (db (later_steps st steps))"
  unfolding later_steps_def
proof (induction steps arbitrary: st)
  case Nil
  then show ?case by simp
next
  case (Cons a steps)
  obtain e c where a: "a = (e, c)" by (cases a)
  from Cons.prems have "populated i (db (main_step e st c))" by (rule populated_main_step)
  from Cons.IH[OF this] show ?case by (simp add: a)
qed

lemma update_other_rows:
  "j \<noteq> i \<Longrightarrow> filter (\<lambda>r. col_id r = i) (update_db_image tbl j b) = filter (\<lambda>r. col_id r = i) tbl"
  by (induction tbl) (simp_all add: update_db_image_def)

lemma rows_kept:
  "\<forall>c \<in> set sched. d_id (c_disc c) = i \<longrightarrow> \<not> task_succeeded e (c_disc c) \<Longrightarrow>
   filter (\<lambda>r. col_id r = i) (db (foldl (main_step e) st sched))
     = filter (\<lambda>r. col_id r = i) (db st)"
proof (induction sched arbitrary: st)
  case Nil
  show ?case by simp
next
  case (Cons c cs)
  have step: "filter (\<lambda>r. col_id r = i) (db (main_step e st c)) = filter (\<lambda>r. col_id r = i) (db st)"
  proof (cases "d_id (c_disc c) = i")
    case True
    with Cons.prems have "\<not> task_succeeded e (c_disc c)" by simp
    then show ?thesis using main_step_not_succeeded[of e c st] by simp
  next
    case False
    with main_step_db[of e st c] show ?thesis by (auto simp: update_other_rows)
  qed
  from Cons.prems have "\<forall>c \<in> set cs. d_id (c_disc c) = i \<longrightarrow> \<not> task_succeeded e (c_disc c)"
    by simp
  from Cons.IH[OF this, of "main_step e st c"] step show ?case by simp
qed

lemma selected_by_id:
  "filter (\<lambda>d. d_id d = i) (get_discs_to_process tbl)
     = get_discs_to_process (filter (\<lambda>r. col_id r = i) tbl)"
  by (induction tbl) (simp_all add: get_discs_to_process_def select_columns_def)

lemma length_filter_mset: "mset xs = mset ys \<Longrightarrow> length (filter P xs) = length (filter P ys)"
proof -
  assume "mset xs = mset ys"
  then have "mset (filter P xs) = mset (filter P ys)" by (simp add: mset_filter)
  then show ?thesis by (rule mset_eq_length)
qed

section \<open>The claims about selection and persistence\<close>

text \<open>
  Claim C1, as stated: the selector returns exactly the records whose \<^verbatim>\<open>weblink\<close> is
  present and not empty and whose \<^verbatim>\<open>img\<close> is null or empty. It does not return a record
  whose \<^verbatim>\<open>img\<close> is a zero-length BLOB: the query compares \<^verbatim>\<open>img\<close> with the text
  \<^verbatim>\<open>''\<close>, and a BLOB is never equal to a text.
\<close>

theorem selector_zero_length_blob_counterexample:
  "col_weblink zero_blob_row = Some ''https://example.com/path/page''
   \<and> col_img zero_blob_row = SqlBlob []
   \<and> img_empty (col_img zero_blob_row)
   \<and> eligible zero_blob_row
   \<and> where_clause zero_blob_row = Some False
   \<and> get_discs_to_process [zero_blob_row] = []
   \<and> get_discs_to_process [zero_blob_row] \<noteq> map select_columns (filter eligible [zero_blob_row])"
  by code_simp

text \<open>
  Claim C1, amended. The selector returns, in table order, exactly the records whose
  \<^verbatim>\<open>weblink\<close> is present and not empty and whose \<^verbatim>\<open>img\<close> is NULL or the empty text:
  these are the eligible records but for those whose \<^verbatim>\<open>img\<close> is a zero-length BLOB. A
  record whose \<^verbatim>\<open>img\<close> is populated is never selected; in particular, once the loop has
  written the image of a record, no selection made after any later loop iterations, of
  this run or of a later one, returns that record.
\<close>

theorem selector_exact_and_rerun_idempotent:
  "get_discs_to_process tbl =
     map select_columns
       (filter (\<lambda>r. has_weblink r \<and> (col_img r = SqlNull \<or> col_img r = SqlText [])) tbl)
   \<and> get_discs_to_process tbl =
     map select_columns (filter (\<lambda>r. eligible r \<and> col_img r \<noteq> SqlBlob []) tbl)
   \<and> (populated i tbl \<longrightarrow> (\<forall>d \<in> set (get_discs_to_process tbl). d_id d \<noteq> i))
   \<and> (writes_performed e c \<longrightarrow>
        populated (d_id (c_disc c)) (db (main_step e st c))
        \<and> (\<forall>d \<in> set (get_discs_to_process (db (later_steps (main_step e st c) steps))).
              d_id d \<noteq> d_id (c_disc c)))"
proof (intro conjI impI ballI)
  show "get_discs_to_process tbl =
     map select_columns
       (filter (\<lambda>r. has_weblink r \<and> (col_img r = SqlNull \<or> col_img r = SqlText [])) tbl)"
    by (rule get_discs_selected)
next
  show "get_discs_to_process tbl =
     map select_columns (filter (\<lambda>r. eligible r \<and> col_img r \<noteq> SqlBlob []) tbl)"
    by (simp add: get_discs_to_process_def where_clause_eligible)
next
  fix d assume "populated i tbl" "d \<in> set (get_discs_to_process tbl)"
  then show "d_id d \<noteq> i" by (rule populated_not_selected)
next
  assume w: "writes_performed e c"
  from main_step_performed[OF w, of st]
  show p: "populated (d_id (c_disc c)) (db (main_step e st c))"
    by (auto simp: update_populates)
  fix d assume "d \<in> set (get_discs_to_process (db (later_steps (main_step e st c) steps)))"
  with populated_later_steps[OF p, of steps] show "d_id d \<noteq> d_id (c_disc c)"
    by (rule populated_not_selected)
qed

theorem selector_exact_and_rerun_idempotent_witness:
  "map d_id (get_discs_to_process catalog) = [1, 2, 3, 4, 5]
   \<and> map col_id (filter (\<lambda>r. eligible r \<and> col_img r \<noteq> SqlBlob []) catalog) = [1, 2, 3, 4, 5]
   \<and> populated 6 catalog
   \<and> writes_performed web (done_ok (select_columns (catalog ! 0)))
   \<and> d_id (c_disc (done_ok (select_columns (catalog ! 0)))) = 1
   \<and> populated 1 (db (main_step web (start catalog Map.empty)
        (done_ok (select_columns (catalog ! 0)))))
   \<and> map d_id (get_discs_to_process (db (later_steps
        (main_step web (start catalog Map.empty) (done_ok (select_columns (catalog ! 0))))
        [(offline, done_ok (select_columns (catalog ! 4))),
         (web, done_ok (select_columns (catalog ! 0)))]))) = [2, 3, 4, 5]"
proof -
  let ?c = "done_ok (select_columns (catalog ! 0))"
  let ?steps = "[(offline, done_ok (select_columns (catalog ! 4))), (web, ?c)]"
  have a: "map d_id (get_discs_to_process catalog) = [1, 2, 3, 4, 5]" by code_simp
  have a': "map col_id (filter (\<lambda>r. eligible r \<and> col_img r \<noteq> SqlBlob []) catalog)
              = [1, 2, 3, 4, 5]" by code_simp
  have b: "populated 6 catalog" by code_simp
  have c: "writes_performed web ?c" by code_simp
  have d: "d_id (c_disc ?c) = 1" by code_simp
  have f: "map d_id (get_discs_to_process (db (later_steps
        (main_step web (start catalog Map.empty) ?c) ?steps))) = [2, 3, 4, 5]" by code_simp
  from selector_exact_and_rerun_idempotent[of catalog 6 web ?c "start catalog Map.empty" ?steps]
    c d
  have "populated 1 (db (main_step web (start catalog Map.empty) ?c))" by simp
  with a a' b c d f show ?thesis by simp
qed

text \<open>
  Claim C2. A task that does not end in Success (its future raised, or
  \<^verbatim>\<open>process_disc\<close> returned no bytes) makes the loop write nothing: the catalog and the
  backup directory are as before and only the failure counter moves. Over a whole run, the
  rows of an identity none of whose tasks succeeded are unchanged, so the selector returns
  for that identity what it returned before.
\<close>

theorem non_success_no_writes:
  "(\<not> task_succeeded e (c_disc c) \<longrightarrow>
      db (main_step e st c) = db st \<and> files (main_step e st c) = files st
      \<and> success_count (main_step e st c) = success_count st
      \<and> fail_count (main_step e st c) = fail_count st + 1)
   \<and> ((\<forall>c \<in> set sched. d_id (c_disc c) = i \<longrightarrow> \<not> task_succeeded e (c_disc c)) \<longrightarrow>
        filter (\<lambda>r. col_id r = i) (db (foldl (main_step e) st sched))
          = filter (\<lambda>r. col_id r = i) (db st)
        \<and> filter (\<lambda>d. d_id d = i) (get_discs_to_process (db (foldl (main_step e) st sched)))
          = filter (\<lambda>d. d_id d = i) (get_discs_to_process (db st)))"
proof (intro conjI impI)
  assume "\<not> task_succeeded e (c_disc c)"
  from main_step_not_succeeded[OF this, of st]
  show "db (main_step e st c) = db st" "files (main_step e st c) = files st"
    "success_count (main_step e st c) = success_count st"
    "fail_count (main_step e st c) = fail_count st + 1" by simp_all
next
  assume h: "\<forall>c \<in> set sched. d_id (c_disc c) = i \<longrightarrow> \<not> task_succeeded e (c_disc c)"
  from rows_kept[OF h, of st]
  show k: "filter (\<lambda>r. col_id r = i) (db (foldl (main_step e) st sched))
          = filter (\<lambda>r. col_id r = i) (db st)" .
  show "filter (\<lambda>d. d_id d = i) (get_discs_to_process (db (foldl (main_step e) st sched)))
          = filter (\<lambda>d. d_id d = i) (get_discs_to_process (db st))"
    by (simp only: selected_by_id k)
qed

theorem non_success_no_writes_witness:
  "\<not> task_succeeded web (c_disc (done_ok (select_columns (catalog ! 2))))
   \<and> db (main_step web (start catalog Map.empty) (done_ok (select_columns (catalog ! 2)))) = catalog
   \<and> files (main_step web (start catalog Map.empty) (done_ok (select_columns (catalog ! 2))))
        ''MVP_Volt.png'' = None
   \<and> fail_count (main_step web (start catalog Map.empty) (done_ok (select_columns (catalog ! 2)))) = 1
   \<and> list_all (\<lambda>c. d_id (c_disc c) \<noteq> 3 \<or> \<not> task_succeeded web (c_disc c))
        (map done_ok (get_discs_to_process catalog))
   \<and> map d_id (filter (\<lambda>d. d_id d = 3) (get_discs_to_process
        (db (foldl (main_step web) (start catalog Map.empty)
               (map done_ok (get_discs_to_process catalog)))))) = [3]"
proof -
  let ?c = "done_ok (select_columns (catalog ! 2))"
  let ?sched = "map done_ok (get_discs_to_process catalog)"
  have a: "\<not> task_succeeded web (c_disc ?c)" by code_simp
  have b: "list_all (\<lambda>c. d_id (c_disc c) \<noteq> 3 \<or> \<not> task_succeeded web (c_disc c)) ?sched"
    by code_simp
  then have b': "\<forall>c \<in> set ?sched. d_id (c_disc c) = 3 \<longrightarrow> \<not> task_succeeded web (c_disc c)"
    by (auto simp: list_all_iff)
  have s: "db (start catalog Map.empty) = catalog" "files (start catalog Map.empty) = Map.empty"
    "fail_count (start catalog Map.empty) = 0"
    by (simp_all add: start_def)
  have g: "map d_id (filter (\<lambda>d. d_id d = 3) (get_discs_to_process catalog)) = [3]" by code_simp
  from non_success_no_writes[of web ?c "start catalog Map.empty" ?sched 3] a b' s g
  have "db (main_step web (start catalog Map.empty) ?c) = catalog"
    "files (main_step web (start catalog Map.empty) ?c) ''MVP_Volt.png'' = None"
    "fail_count (main_step web (start catalog Map.empty) ?c) = 1"
    "map d_id (filter (\<lambda>d. d_id d = 3) (get_discs_to_process
        (db (foldl (main_step web) (start catalog Map.empty) ?sched)))) = [3]"
    by simp_all
  with a b show ?thesis by simp
qed


text \<open>
  Claim C3. When \<^verbatim>\<open>as_completed\<close> has yielded every submitted future once, in whatever
  order, the two counters add up to the number of candidates. \<^verbatim>\<open>success_count\<close> counts
  the tasks for which the loop performed the catalog write and the backup write,
  \<^verbatim>\<open>fail_count\<close> counts all the others, among them the tasks whose future raised, and
  neither depends on the order of completion.
\<close>

theorem main_counts_total:
  "(writes_performed e c \<longrightarrow>
      (\<exists>png name. db (main_step e st c) = update_db_image (db st) (d_id (c_disc c)) png
         \<and> files (main_step e st c) = save_to_file (files st) name png)
      \<and> success_count (main_step e st c) = success_count st + 1
      \<and> fail_count (main_step e st c) = fail_count st)
   \<and> (\<not> writes_performed e c \<longrightarrow>
        success_count (main_step e st c) = success_count st
        \<and> fail_count (main_step e st c) = fail_count st + 1)
   \<and> (mset (map c_disc sched) = mset (get_discs_to_process tbl) \<longrightarrow>
     success_count (main e tbl fs sched) + fail_count (main e tbl fs sched)
       = length (get_discs_to_process tbl)
     \<and> success_count (main e tbl fs sched) = length (filter (writes_performed e) sched)
     \<and> fail_count (main e tbl fs sched) = length (filter (\<lambda>c. \<not> writes_performed e c) sched)
     \<and> (\<forall>c \<in> set sched. \<forall>x. fst (process_disc e (c_disc c)) = Inl x \<longrightarrow> \<not> writes_performed e c)
     \<and> (\<forall>sched'. mset sched' = mset sched \<longrightarrow>
           success_count (main e tbl fs sched') = success_count (main e tbl fs sched)
           \<and> fail_count (main e tbl fs sched') = fail_count (main e tbl fs sched)))"
proof (intro conjI; rule impI)
  assume "writes_performed e c"
  from main_step_performed[OF this, of st]
  show "(\<exists>png name. db (main_step e st c) = update_db_image (db st) (d_id (c_disc c)) png
         \<and> files (main_step e st c) = save_to_file (files st) name png)
      \<and> success_count (main_step e st c) = success_count st + 1
      \<and> fail_count (main_step e st c) = fail_count st"
    by blast
next
  assume "\<not> writes_performed e c"
  from main_step_not_performed[OF this, of st]
  show "success_count (main_step e st c) = success_count st
        \<and> fail_count (main_step e st c) = fail_count st + 1" .
next
  assume h: "mset (map c_disc sched) = mset (get_discs_to_process tbl)"
  then have len: "length sched = length (get_discs_to_process tbl)"
    using mset_eq_length[OF h] by simp
  have e0: "get_discs_to_process tbl = [] \<Longrightarrow> sched = []" using len by simp
  have s: "success_count (main e tbl fs sched) = length (filter (writes_performed e) sched)"
    using main_counts[of e tbl fs sched] e0 by auto
  have f: "fail_count (main e tbl fs sched)
       = length (filter (\<lambda>c. \<not> writes_performed e c) sched)"
    using main_counts[of e tbl fs sched] e0 by auto
  have t: "success_count (main e tbl fs sched) + fail_count (main e tbl fs sched)
       = length (get_discs_to_process tbl)"
    using sum_length_filter_compl[of "writes_performed e" sched] by (simp add: s f len)
  have x: "\<forall>c \<in> set sched. \<forall>x. fst (process_disc e (c_disc c)) = Inl x
            \<longrightarrow> \<not> writes_performed e c"
    by (simp add: writes_performed_def task_succeeded_def)
  have p: "\<forall>sched'. mset sched' = mset sched \<longrightarrow>
           success_count (main e tbl fs sched') = success_count (main e tbl fs sched)
           \<and> fail_count (main e tbl fs sched') = fail_count (main e tbl fs sched)"
  proof (intro allI impI)
    fix sched' assume m: "mset sched' = mset sched"
    from length_filter_mset[OF m] main_counts[of e tbl fs sched] main_counts[of e tbl fs sched']
    show "success_count (main e tbl fs sched') = success_count (main e tbl fs sched)
           \<and> fail_count (main e tbl fs sched') = fail_count (main e tbl fs sched)"
      by simp
  qed
  from s f t x p show "success_count (main e tbl fs sched) + fail_count (main e tbl fs sched)
       = length (get_discs_to_process tbl)
     \<and> success_count (main e tbl fs sched) = length (filter (writes_performed e) sched)
     \<and> fail_count (main e tbl fs sched) = length (filter (\<lambda>c. \<not> writes_performed e c) sched)
     \<and> (\<forall>c \<in> set sched. \<forall>x. fst (process_disc e (c_disc c)) = Inl x \<longrightarrow> \<not> writes_performed e c)
     \<and> (\<forall>sched'. mset sched' = mset sched \<longrightarrow>
           success_count (main e tbl fs sched') = success_count (main e tbl fs sched)
           \<and> fail_count (main e tbl fs sched') = fail_count (main e tbl fs sched))"
    by blast
qed


theorem main_counts_total_witness:
  "mset (map c_disc (rev (map done_ok (get_discs_to_process catalog))))
     = mset (get_discs_to_process catalog)
   \<and> length (get_discs_to_process catalog) = 5
   \<and> success_count (main web catalog Map.empty (rev (map done_ok (get_discs_to_process catalog)))) = 2
   \<and> fail_count (main web catalog Map.empty (rev (map done_ok (get_discs_to_process catalog)))) = 3
   \<and> mset (map done_ok (get_discs_to_process catalog))
     = mset (rev (map done_ok (get_discs_to_process catalog)))
   \<and> success_count (main web catalog Map.empty (map done_ok (get_discs_to_process catalog))) = 2
   \<and> fail_count (main web catalog Map.empty (map done_ok (get_discs_to_process catalog))) = 3
   \<and> mset (map c_disc (backup_failed (get_discs_to_process catalog ! 4)
                          # map done_ok (take 4 (get_discs_to_process catalog))))
     = mset (get_discs_to_process catalog)
   \<and> success_count (main web catalog Map.empty
        (backup_failed (get_discs_to_process catalog ! 4)
           # map done_ok (take 4 (get_discs_to_process catalog)))) = 1
   \<and> fail_count (main web catalog Map.empty
        (backup_failed (get_discs_to_process catalog ! 4)
           # map done_ok (take 4 (get_discs_to_process catalog)))) = 4"
proof -
  let ?ds = "get_discs_to_process catalog"
  let ?sched = "rev (map done_ok ?ds)"
  let ?sched2 = "backup_failed (?ds ! 4) # map done_ok (take 4 ?ds)"
  have h: "mset (map c_disc ?sched) = mset ?ds"
    by (simp add: rev_map[symmetric] comp_def done_ok_def)
  have h2: "mset (map c_disc ?sched2) = mset ?ds" by code_simp
  have m: "mset (map done_ok ?ds) = mset ?sched" by simp
  have n: "length ?ds = 5" by code_simp
  have s: "length (filter (writes_performed web) ?sched) = 2" by code_simp
  have s2: "length (filter (writes_performed web) ?sched2) = 1" by code_simp
  note t = main_counts_total[of web "done_ok (hd ?ds)" "start catalog Map.empty" ?sched catalog
      Map.empty, THEN conjunct2, THEN conjunct2, THEN mp, OF h]
  note u = main_counts_total[of web "done_ok (hd ?ds)" "start catalog Map.empty" ?sched2 catalog
      Map.empty, THEN conjunct2, THEN conjunct2, THEN mp, OF h2]
  from t have t1: "success_count (main web catalog Map.empty ?sched)
      + fail_count (main web catalog Map.empty ?sched) = length ?ds" by (rule conjunct1)
  from t have t2: "success_count (main web catalog Map.empty ?sched)
      = length (filter (writes_performed web) ?sched)" by blast
  from t m have t3: "success_count (main web catalog Map.empty (map done_ok ?ds))
      = success_count (main web catalog Map.empty ?sched)
    \<and> fail_count (main web catalog Map.empty (map done_ok ?ds))
      = fail_count (main web catalog Map.empty ?sched)" by blast
  from u have u1: "success_count (main web catalog Map.empty ?sched2)
      + fail_count (main web catalog Map.empty ?sched2) = length ?ds" by (rule conjunct1)
  from u have u2: "success_count (main web catalog Map.empty ?sched2)
      = length (filter (writes_performed web) ?sched2)" by blast
  from t1 t2 t3 u1 u2 n s s2
  have "success_count (main web catalog Map.empty ?sched) = 2"
    "fail_count (main web catalog Map.empty ?sched) = 3"
    "success_count (main web catalog Map.empty (map done_ok ?ds)) = 2"
    "fail_count (main web catalog Map.empty (map done_ok ?ds)) = 3"
    "success_count (main web catalog Map.empty ?sched2) = 1"
    "fail_count (main web catalog Map.empty ?sched2) = 4"
    by simp_all
  with h h2 m n show ?thesis by simp
qed

text \<open>
  Claim C8. \<^verbatim>\<open>update_db_image\<close> changes nothing but the \<^verbatim>\<open>img\<close> column of the rows whose
  \<^verbatim>\<open>id\<close> is the given one: the table keeps its rows in place, a row with another
  \<^verbatim>\<open>id\<close> is unchanged, and a matching row differs from the old one in \<^verbatim>\<open>img\<close> only.
\<close>

theorem update_db_image_frame:
  "length (update_db_image tbl i b) = length tbl
   \<and> (\<forall>k < length tbl.
        (col_id (tbl ! k) = i \<longrightarrow> update_db_image tbl i b ! k = (tbl ! k)\<lparr>col_img := SqlBlob b\<rparr>)
        \<and> (col_id (tbl ! k) \<noteq> i \<longrightarrow> update_db_image tbl i b ! k = tbl ! k)
        \<and> col_id (update_db_image tbl i b ! k) = col_id (tbl ! k)
        \<and> col_model (update_db_image tbl i b ! k) = col_model (tbl ! k)
        \<and> col_manufacturer (update_db_image tbl i b ! k) = col_manufacturer (tbl ! k)
        \<and> col_weblink (update_db_image tbl i b ! k) = col_weblink (tbl ! k)
        \<and> col_rest (update_db_image tbl i b ! k) = col_rest (tbl ! k))"
  by (simp add: update_db_image_def)

theorem update_db_image_frame_witness:
  "length (update_db_image catalog 3 [9]) = 7
   \<and> (2::nat) < length catalog
   \<and> col_id (catalog ! 2) = 3
   \<and> update_db_image catalog 3 [9] ! 2 = (catalog ! 2)\<lparr>col_img := SqlBlob [9]\<rparr>
   \<and> col_id (catalog ! 0) = 1
   \<and> update_db_image catalog 3 [9] ! 0 = catalog ! 0
   \<and> col_weblink (update_db_image catalog 3 [9] ! 2) = Some ''https://example.com/gone''"
proof -
  have l: "length catalog = 7" by code_simp
  have i: "col_id (catalog ! 2) = 3" "col_id (catalog ! 0) = 1" by code_simp+
  have w: "col_weblink (catalog ! 2) = Some ''https://example.com/gone''" by code_simp
  note t = update_db_image_frame[of catalog 3 "[9]"]
  from t l have a: "length (update_db_image catalog 3 [9]) = 7" by simp
  from t l i have b: "update_db_image catalog 3 [9] ! 2 = (catalog ! 2)\<lparr>col_img := SqlBlob [9]\<rparr>"
    by simp
  from t l i have c: "update_db_image catalog 3 [9] ! 0 = catalog ! 0" by simp
  from t l w have d: "col_weblink (update_db_image catalog 3 [9] ! 2) = Some ''https://example.com/gone''"
    by simp
  from a b c d l i show ?thesis by simp
qed


section \<open>The claims about a task\<close>

text \<open>
  Claim C7. The file name that \<^verbatim>\<open>process_disc\<close> derives is the sanitized manufacturer,
  an underscore, the sanitized model and \<^verbatim>\<open>.png\<close>, where sanitizing replaces each
  reserved character and each maximal run of white space by one underscore; the name holds
  no reserved character and no white space.
\<close>

theorem process_disc_filename:
  "(\<forall>s. sanitize_filename s = sanitize_spec s)
   \<and> (fst (process_disc e d) = Inr (i, png, Some name) \<longrightarrow>
        (\<exists>m md. d_manufacturer d = Some m \<and> d_model d = Some md
           \<and> name = sanitize_filename m @ ''_'' @ sanitize_filename md @ ''.png'')
        \<and> (\<forall>c \<in> set name. \<not> is_reserved c \<and> \<not> is_space c))"
proof (intro conjI impI allI)
  fix s show "sanitize_filename s = sanitize_spec s" by (rule sanitize_refines)
next
  assume r: "fst (process_disc e d) = Inr (i, png, Some name)"
  from process_disc_returns(4)[OF r refl]
  show n: "\<exists>m md. d_manufacturer d = Some m \<and> d_model d = Some md
           \<and> name = sanitize_filename m @ ''_'' @ sanitize_filename md @ ''.png''" .
  then obtain m md where "name = sanitize_filename m @ ''_'' @ sanitize_filename md @ ''.png''"
    by blast
  then show "\<forall>c \<in> set name. \<not> is_reserved c \<and> \<not> is_space c"
    using filename_plain[of m md] by simp
qed

theorem process_disc_filename_witness:
  "fst (process_disc web (select_columns (catalog ! 0)))
     = Inr (1, Some [10, 7], Some ''Innova_Aviar_P&A.png'')
   \<and> d_manufacturer (select_columns (catalog ! 0)) = Some ''Innova''
   \<and> d_model (select_columns (catalog ! 0)) = Some ''Aviar  P&A''
   \<and> sanitize_filename ''Innova'' @ ''_'' @ sanitize_filename ''Aviar  P&A'' @ ''.png''
     = ''Innova_Aviar_P&A.png''
   \<and> sanitize_spec ''Aviar  P&A'' = ''Aviar_P&A''
   \<and> list_all (\<lambda>c. \<not> is_reserved c \<and> \<not> is_space c) ''Innova_Aviar_P&A.png''"
proof -
  let ?d = "select_columns (catalog ! 0)"
  have r: "fst (process_disc web ?d) = Inr (1, Some [10, 7], Some ''Innova_Aviar_P&A.png'')"
    by code_simp
  have m: "d_manufacturer ?d = Some ''Innova''" "d_model ?d = Some ''Aviar  P&A''"
    by code_simp+
  have f: "sanitize_filename ''Innova'' @ ''_'' @ sanitize_filename ''Aviar  P&A'' @ ''.png''
     = ''Innova_Aviar_P&A.png''" by code_simp
  have g: "sanitize_filename ''Aviar  P&A'' = ''Aviar_P&A''" by code_simp
  note t = process_disc_filename[of web ?d 1 "Some [10, 7]" "''Innova_Aviar_P&A.png''"]
  from t g have sp: "sanitize_spec ''Aviar  P&A'' = ''Aviar_P&A''" by metis
  from t r have "\<forall>c \<in> set ''Innova_Aviar_P&A.png''. \<not> is_reserved c \<and> \<not> is_space c" by blast
  then have "list_all (\<lambda>c. \<not> is_reserved c \<and> \<not> is_space c) ''Innova_Aviar_P&A.png''"
    by (simp only: list_all_iff)
  with r m f sp show ?thesis by simp
qed


text \<open>
  Claim C9. \<^verbatim>\<open>process_disc\<close> raises only when the manufacturer or the model is NULL.
  The triple it returns otherwise carries the identity of its input, has bytes exactly
  when it has a file name, and its file name ends with \<^verbatim>\<open>.png\<close>.
\<close>

theorem process_disc_triple:
  "((\<exists>x. fst (process_disc e d) = Inl x) \<longleftrightarrow> (d_manufacturer d = None \<or> d_model d = None))
   \<and> (fst (process_disc e d) = Inr (i, png, f) \<longrightarrow>
        i = d_id d \<and> (png = None \<longleftrightarrow> f = None)
        \<and> (\<forall>name. f = Some name \<longrightarrow> (\<exists>stem. name = stem @ ''.png'')))"
proof (intro conjI impI allI)
  show "(\<exists>x. fst (process_disc e d) = Inl x) \<longleftrightarrow> (d_manufacturer d = None \<or> d_model d = None)"
    by (rule process_disc_raises)
next
  assume r: "fst (process_disc e d) = Inr (i, png, f)"
  show "i = d_id d" by (rule process_disc_returns(1)[OF r])
  show "png = None \<longleftrightarrow> f = None" by (rule process_disc_returns(2)[OF r])
  fix name assume "f = Some name"
  from process_disc_returns(4)[OF r this] obtain m md where
    "name = (sanitize_filename m @ ''_'' @ sanitize_filename md) @ ''.png''" by auto
  then show "\<exists>stem. name = stem @ ''.png''" by blast
qed

theorem process_disc_triple_witness:
  "fst (process_disc web (select_columns (catalog ! 4)))
     = Inr (5, Some [10, 7], Some ''Kastaplast_Berg.png'')
   \<and> d_id (select_columns (catalog ! 4)) = 5
   \<and> ''Kastaplast_Berg.png'' = ''Kastaplast_Berg'' @ ''.png''
   \<and> fst (process_disc web (select_columns (catalog ! 2))) = Inr (3, None, None)
   \<and> d_id (select_columns (catalog ! 2)) = 3"
proof -
  have r: "fst (process_disc web (select_columns (catalog ! 4)))
     = Inr (5, Some [10, 7], Some ''Kastaplast_Berg.png'')" by code_simp
  have q: "fst (process_disc web (select_columns (catalog ! 2))) = Inr (3, None, None)"
    by code_simp
  from process_disc_triple[of web "select_columns (catalog ! 4)" 5 "Some [10, 7]"
      "Some ''Kastaplast_Berg.png''"] r
  have a: "d_id (select_columns (catalog ! 4)) = 5" by simp
  from process_disc_triple[of web "select_columns (catalog ! 2)" 3 None None] q
  have b: "d_id (select_columns (catalog ! 2)) = 3" by simp
  from r q a b show ?thesis by simp
qed


section \<open>The claims about extraction and normalization\<close>

lemma startswith_slash: "startswith ref ''//'' \<Longrightarrow> startswith ref ''/''"
  by (cases ref) (auto simp: startswith_def)

lemma extract_found:
  assumes "http_get e w = Inr content" "select_src e content = Inr (Src ref)" "ref \<noteq> []"
  shows "extract_body e w =
     (if startswith ref ''//'' then Inr (Some (''https:'' @ ref))
      else if startswith ref ''/'' then
        (case urlparse e w of Inl x \<Rightarrow> Inl x
         | Inr parsed \<Rightarrow> Inr (Some (scheme parsed @ ''://'' @ netloc parsed @ ref)))
      else Inr (Some ref))"
  using assms by (simp add: extract_body_def)

text \<open>
  Claim C4, as stated: a reference that begins with \<^verbatim>\<open>//\<close> gets the scheme of the
  origin page. It does not: the prefix is the constant \<^verbatim>\<open>https:\<close>, so for an origin
  served over \<^verbatim>\<open>http\<close> the result differs from \<open>resolve_spec\<close>.
\<close>

theorem reference_resolution_counterexample:
  "urlparse web (Some ''http://example.com/path/page'')
     = Inr \<lparr>scheme = ''http'', netloc = ''example.com''\<rparr>
   \<and> http_get web (Some ''http://example.com/path/page'') = Inr [2]
   \<and> select_src web [2] = Inr (Src ''//cdn.example.com/x.webp'')
   \<and> resolve_spec \<lparr>scheme = ''http'', netloc = ''example.com''\<rparr> ''//cdn.example.com/x.webp''
        = ''http://cdn.example.com/x.webp''
   \<and> fst (extract_image_url web (Some ''http://example.com/path/page''))
        = Some ''https://cdn.example.com/x.webp''
   \<and> fst (extract_image_url web (Some ''http://example.com/path/page''))
        \<noteq> Some (resolve_spec \<lparr>scheme = ''http'', netloc = ''example.com''\<rparr>
                   ''//cdn.example.com/x.webp'')"
  by code_simp

text \<open>
  Claim C4, amended. For a page that was fetched and holds a non-empty \<^verbatim>\<open>src\<close>: a
  reference that begins with \<^verbatim>\<open>//\<close> is prefixed with \<^verbatim>\<open>https:\<close>; a reference that
  begins with a single \<^verbatim>\<open>/\<close> is prefixed with the scheme, \<^verbatim>\<open>://\<close> and the network
  location that \<^verbatim>\<open>urlparse\<close> gives for the origin page, and nothing is returned if
  \<^verbatim>\<open>urlparse\<close> raises; any other reference is returned unchanged. For an origin whose
  scheme is \<^verbatim>\<open>https\<close> this is the resolution of the specification.
\<close>

theorem reference_resolution:
  "http_get e w = Inr content \<and> select_src e content = Inr (Src ref) \<and> ref \<noteq> [] \<longrightarrow>
     (startswith ref ''//'' \<longrightarrow> extract_image_url e w = (Some (''https:'' @ ref), []))
     \<and> (startswith ref ''/'' \<and> \<not> startswith ref ''//'' \<longrightarrow>
          (\<forall>p. urlparse e w = Inr p \<longrightarrow>
             extract_image_url e w = (Some (scheme p @ ''://'' @ netloc p @ ref), []))
          \<and> (\<forall>x. urlparse e w = Inl x \<longrightarrow> extract_image_url e w = (None, [ErrorExtract w x])))
     \<and> (\<not> startswith ref ''/'' \<longrightarrow> extract_image_url e w = (Some ref, []))
     \<and> (\<forall>p. urlparse e w = Inr p \<and> scheme p = ''https'' \<longrightarrow>
          fst (extract_image_url e w) = Some (resolve_spec p ref))"
proof (intro impI)
  assume a: "http_get e w = Inr content \<and> select_src e content = Inr (Src ref) \<and> ref \<noteq> []"
  then have b: "extract_body e w =
     (if startswith ref ''//'' then Inr (Some (''https:'' @ ref))
      else if startswith ref ''/'' then
        (case urlparse e w of Inl x \<Rightarrow> Inl x
         | Inr parsed \<Rightarrow> Inr (Some (scheme parsed @ ''://'' @ netloc parsed @ ref)))
      else Inr (Some ref))"
    using extract_found[of e w content ref] by blast
  have 1: "startswith ref ''//'' \<longrightarrow> extract_image_url e w = (Some (''https:'' @ ref), [])"
    by (simp add: extract_image_url_def b)
  have 2: "startswith ref ''/'' \<and> \<not> startswith ref ''//'' \<longrightarrow>
          (\<forall>p. urlparse e w = Inr p \<longrightarrow>
             extract_image_url e w = (Some (scheme p @ ''://'' @ netloc p @ ref), []))
          \<and> (\<forall>x. urlparse e w = Inl x \<longrightarrow> extract_image_url e w = (None, [ErrorExtract w x]))"
    by (simp add: extract_image_url_def b)
  have 3: "\<not> startswith ref ''/'' \<longrightarrow> extract_image_url e w = (Some ref, [])"
    using startswith_slash[of ref] by (auto simp: extract_image_url_def b)
  have 4: "\<forall>p. urlparse e w = Inr p \<and> scheme p = ''https'' \<longrightarrow>
          fst (extract_image_url e w) = Some (resolve_spec p ref)"
    by (auto simp: extract_image_url_def b resolve_spec_def)
  from 1 2 3 4 show "(startswith ref ''//'' \<longrightarrow> extract_image_url e w = (Some (''https:'' @ ref), []))
     \<and> (startswith ref ''/'' \<and> \<not> startswith ref ''//'' \<longrightarrow>
          (\<forall>p. urlparse e w = Inr p \<longrightarrow>
             extract_image_url e w = (Some (scheme p @ ''://'' @ netloc p @ ref), []))
          \<and> (\<forall>x. urlparse e w = Inl x \<longrightarrow> extract_image_url e w = (None, [ErrorExtract w x])))
     \<and> (\<not> startswith ref ''/'' \<longrightarrow> extract_image_url e w = (Some ref, []))
     \<and> (\<forall>p. urlparse e w = Inr p \<and> scheme p = ''https'' \<longrightarrow>
          fst (extract_image_url e w) = Some (resolve_spec p ref))"
    by blast
qed


theorem reference_resolution_witness:
  "http_get web (Some ''https://example.com/path/page'') = Inr [1]
   \<and> select_src web [1] = Inr (Src ''//cdn.example.com/x.webp'')
   \<and> extract_image_url web (Some ''https://example.com/path/page'')
        = (Some ''https://cdn.example.com/x.webp'', [])
   \<and> http_get web (Some ''https://example.com/path/other'') = Inr [6]
   \<and> select_src web [6] = Inr (Src ''/img/x.webp'')
   \<and> urlparse web (Some ''https://example.com/path/other'')
        = Inr \<lparr>scheme = ''https'', netloc = ''example.com''\<rparr>
   \<and> extract_image_url web (Some ''https://example.com/path/other'')
        = (Some ''https://example.com/img/x.webp'', [])
   \<and> http_get web (Some ''https://example.com/path/abs'') = Inr [7]
   \<and> select_src web [7] = Inr (Src ''https://other.com/x.webp'')
   \<and> extract_image_url web (Some ''https://example.com/path/abs'')
        = (Some ''https://other.com/x.webp'', [])"
proof -
  have a: "http_get web (Some ''https://example.com/path/page'') = Inr [1]"
    "select_src web [1] = Inr (Src ''//cdn.example.com/x.webp'')"
    "startswith ''//cdn.example.com/x.webp'' ''//''"
    by code_simp+
  have b: "http_get web (Some ''https://example.com/path/other'') = Inr [6]"
    "select_src web [6] = Inr (Src ''/img/x.webp'')"
    "startswith ''/img/x.webp'' ''/''" "\<not> startswith ''/img/x.webp'' ''//''"
    "urlparse web (Some ''https://example.com/path/other'')
        = Inr \<lparr>scheme = ''https'', netloc = ''example.com''\<rparr>"
    by code_simp+
  have c: "http_get web (Some ''https://example.com/path/abs'') = Inr [7]"
    "select_src web [7] = Inr (Src ''https://other.com/x.webp'')"
    "\<not> startswith ''https://other.com/x.webp'' ''/''"
    by code_simp+
  from reference_resolution[of web "Some ''https://example.com/path/page''" "[1]"
      "''//cdn.example.com/x.webp''"] a
  have r1: "extract_image_url web (Some ''https://example.com/path/page'')
        = (Some ''https://cdn.example.com/x.webp'', [])" by simp
  from reference_resolution[of web "Some ''https://example.com/path/other''" "[6]"
      "''/img/x.webp''"] b
  have r2: "extract_image_url web (Some ''https://example.com/path/other'')
        = (Some ''https://example.com/img/x.webp'', [])" by simp
  from reference_resolution[of web "Some ''https://example.com/path/abs''" "[7]"
      "''https://other.com/x.webp''"] c
  have r3: "extract_image_url web (Some ''https://example.com/path/abs'')
        = (Some ''https://other.com/x.webp'', [])" by simp
  from a b c r1 r2 r3 show ?thesis by simp
qed

text \<open>
  Claim C5, as stated: a source with an alpha channel, LA among them, is converted to the
  truecolor mode with transparency. An LA image is not converted: it is encoded in mode LA.
\<close>

theorem mode_normalization_counterexample:
  "image_open web [10, 7] = Inr \<lparr>mode = ''LA'', pixels = [10, 7]\<rparr>
   \<and> normalize_mode web \<lparr>mode = ''LA'', pixels = [10, 7]\<rparr>
        = Inr \<lparr>mode = ''LA'', pixels = [10, 7]\<rparr>
   \<and> target_mode_spec ''LA'' = ''RGBA''
   \<and> mode \<lparr>mode = ''LA'', pixels = [10, 7]\<rparr> \<noteq> target_mode_spec ''LA''"
  by code_simp

text \<open>
  Claim C5, amended. An image of mode RGBA or LA is encoded in its own mode, so its alpha
  channel is kept; an image of mode P is converted to RGBA; an image of mode RGB is left
  as it is and an image of any other mode is converted to RGB. The bytes returned are
  those of saving the resulting image as PNG with \<^verbatim>\<open>optimize=True\<close>.
\<close>

theorem mode_normalization:
  "(mode img = ''RGBA'' \<or> mode img = ''LA'' \<or> mode img = ''RGB'' \<longrightarrow>
      normalize_mode e img = Inr img)
   \<and> (mode img = ''P'' \<longrightarrow> normalize_mode e img = convert e img ''RGBA'')
   \<and> (mode img \<notin> set [''RGBA'', ''LA'', ''P'', ''RGB''] \<longrightarrow>
        normalize_mode e img = convert e img ''RGB'')
   \<and> (download_body e url = Inr png \<longrightarrow>
        (\<exists>content img0 img1. http_get e (Some url) = Inr content
           \<and> image_open e content = Inr img0 \<and> normalize_mode e img0 = Inr img1
           \<and> save e img1 ''PNG'' True = Inr png))"
proof (intro conjI; rule impI)
  assume "mode img = ''RGBA'' \<or> mode img = ''LA'' \<or> mode img = ''RGB''"
  then show "normalize_mode e img = Inr img" by (auto simp: normalize_mode_def)
next
  assume "mode img = ''P''"
  then show "normalize_mode e img = convert e img ''RGBA''" by (simp add: normalize_mode_def)
next
  assume "mode img \<notin> set [''RGBA'', ''LA'', ''P'', ''RGB'']"
  then show "normalize_mode e img = convert e img ''RGB''" by (simp add: normalize_mode_def)
next
  assume "download_body e url = Inr png"
  then show "\<exists>content img0 img1. http_get e (Some url) = Inr content
           \<and> image_open e content = Inr img0 \<and> normalize_mode e img0 = Inr img1
           \<and> save e img1 ''PNG'' True = Inr png"
    by (auto simp: download_body_def split: sum.splits)
qed

theorem mode_normalization_witness:
  "mode \<lparr>mode = ''LA'', pixels = [10, 7]\<rparr> = ''LA''
   \<and> normalize_mode web \<lparr>mode = ''LA'', pixels = [10, 7]\<rparr>
        = Inr \<lparr>mode = ''LA'', pixels = [10, 7]\<rparr>
   \<and> mode \<lparr>mode = ''P'', pixels = [11, 8]\<rparr> = ''P''
   \<and> normalize_mode web \<lparr>mode = ''P'', pixels = [11, 8]\<rparr>
        = Inr \<lparr>mode = ''RGBA'', pixels = [11, 8]\<rparr>
   \<and> normalize_mode web \<lparr>mode = ''CMYK'', pixels = [12, 9]\<rparr>
        = Inr \<lparr>mode = ''RGB'', pixels = [12, 9]\<rparr>
   \<and> download_body web ''https://example.com/img/x.webp'' = Inr [11, 8]
   \<and> image_open web [11, 8] = Inr \<lparr>mode = ''P'', pixels = [11, 8]\<rparr>
   \<and> save web \<lparr>mode = ''RGBA'', pixels = [11, 8]\<rparr> ''PNG'' True = Inr [11, 8]"
proof -
  have c: "convert web \<lparr>mode = ''P'', pixels = [11, 8]\<rparr> ''RGBA''
             = Inr \<lparr>mode = ''RGBA'', pixels = [11, 8]\<rparr>"
    "convert web \<lparr>mode = ''CMYK'', pixels = [12, 9]\<rparr> ''RGB''
             = Inr \<lparr>mode = ''RGB'', pixels = [12, 9]\<rparr>"
    "download_body web ''https://example.com/img/x.webp'' = Inr [11, 8]"
    "image_open web [11, 8] = Inr \<lparr>mode = ''P'', pixels = [11, 8]\<rparr>"
    "save web \<lparr>mode = ''RGBA'', pixels = [11, 8]\<rparr> ''PNG'' True = Inr [11, 8]"
    by code_simp+
  from mode_normalization[of "\<lparr>mode = ''LA'', pixels = [10, 7]\<rparr>" web]
  have r1: "normalize_mode web \<lparr>mode = ''LA'', pixels = [10, 7]\<rparr>
        = Inr \<lparr>mode = ''LA'', pixels = [10, 7]\<rparr>" by simp
  from mode_normalization[of "\<lparr>mode = ''P'', pixels = [11, 8]\<rparr>" web] c
  have r2: "normalize_mode web \<lparr>mode = ''P'', pixels = [11, 8]\<rparr>
        = Inr \<lparr>mode = ''RGBA'', pixels = [11, 8]\<rparr>" by simp
  from mode_normalization[of "\<lparr>mode = ''CMYK'', pixels = [12, 9]\<rparr>" web] c
  have r3: "normalize_mode web \<lparr>mode = ''CMYK'', pixels = [12, 9]\<rparr>
        = Inr \<lparr>mode = ''RGB'', pixels = [12, 9]\<rparr>" by simp
  from r1 r2 r3 c show ?thesis by simp
qed

text \<open>
  Claim C6, as stated: the output of \<^verbatim>\<open>extract_image_url\<close> tells "not found" from a
  transport failure. It does not: the function returns \<^verbatim>\<open>None\<close> in both cases.
\<close>

theorem not_found_indistinct_counterexample:
  "http_get web (Some ''https://example.com/plain'') = Inr [3]
   \<and> select_src web [3] = Inr NoElement
   \<and> http_get offline (Some ''https://example.com/plain'') = Inl RequestException
   \<and> fst (extract_image_url web (Some ''https://example.com/plain'')) = None
   \<and> fst (extract_image_url offline (Some ''https://example.com/plain'')) = None
   \<and> fst (extract_image_url web (Some ''https://example.com/plain''))
        = fst (extract_image_url offline (Some ''https://example.com/plain''))"
  by code_simp

text \<open>
  Claim C6, amended. A page without the element, without the \<^verbatim>\<open>src\<close> attribute or
  with an empty one, and a failed request, all make \<^verbatim>\<open>extract_image_url\<close> return
  \<^verbatim>\<open>None\<close>, and no exception propagates in either case: the returned value is
  \<^verbatim>\<open>None\<close> exactly when the body returned \<^verbatim>\<open>None\<close> or raised. The two cases differ
  only in the log: the failed request is logged as an error, "not found" logs nothing.
\<close>

theorem not_found_and_transport_failure:
  "(http_get e w = Inr content
      \<and> (select_src e content = Inr NoElement \<or> select_src e content = Inr NoSrc
           \<or> select_src e content = Inr (Src [])) \<longrightarrow>
      extract_body e w = Inr None \<and> extract_image_url e w = (None, []))
   \<and> (http_get e w = Inl x \<longrightarrow>
        extract_body e w = Inl x \<and> extract_image_url e w = (None, [ErrorExtract w x]))
   \<and> (fst (extract_image_url e w) = None
        \<longleftrightarrow> extract_body e w = Inr None \<or> (\<exists>y. extract_body e w = Inl y))"
proof (intro conjI)
  show "http_get e w = Inr content
      \<and> (select_src e content = Inr NoElement \<or> select_src e content = Inr NoSrc
           \<or> select_src e content = Inr (Src [])) \<longrightarrow>
      extract_body e w = Inr None \<and> extract_image_url e w = (None, [])"
    by (auto simp: extract_image_url_def extract_body_def)
  show "http_get e w = Inl x \<longrightarrow>
        extract_body e w = Inl x \<and> extract_image_url e w = (None, [ErrorExtract w x])"
    by (simp add: extract_image_url_def extract_body_def)
  show "fst (extract_image_url e w) = None
        \<longleftrightarrow> extract_body e w = Inr None \<or> (\<exists>y. extract_body e w = Inl y)"
    by (cases "extract_body e w") (simp_all add: extract_image_url_def)
qed

theorem not_found_and_transport_failure_witness:
  "http_get web (Some ''https://example.com/plain'') = Inr [3]
   \<and> select_src web [3] = Inr NoElement
   \<and> extract_image_url web (Some ''https://example.com/plain'') = (None, [])
   \<and> http_get offline (Some ''https://example.com/plain'') = Inl RequestException
   \<and> extract_image_url offline (Some ''https://example.com/plain'')
        = (None, [ErrorExtract (Some ''https://example.com/plain'') RequestException])"
proof -
  have a: "http_get web (Some ''https://example.com/plain'') = Inr [3]"
    "select_src web [3] = Inr NoElement"
    "http_get offline (Some ''https://example.com/plain'') = Inl RequestException"
    by code_simp+
  from not_found_and_transport_failure[of web "Some ''https://example.com/plain''" "[3]"] a
  have r1: "extract_image_url web (Some ''https://example.com/plain'') = (None, [])" by simp
  from not_found_and_transport_failure[of offline "Some ''https://example.com/plain''" _
      RequestException] a
  have r2: "extract_image_url offline (Some ''https://example.com/plain'')
        = (None, [ErrorExtract (Some ''https://example.com/plain'') RequestException])" by simp
  from a r1 r2 show ?thesis by simp
qed

end
